theory Spec2Isabelle
  imports Main
begin

section \<open>Connection pools over Go channels\<close>

text \<open>
  The two pools of the repository, \<^verbatim>\<open>dbpool.ConnectionPool\<close> (file
  \<^verbatim>\<open>patterns/work-pools/db/db_pool.go\<close>) and \<^verbatim>\<open>redispool.RedisConnectionPool\<close>,
  keep their idle connections in a buffered Go channel of pointers. The functions
  \<^verbatim>\<open>New\<close>, \<^verbatim>\<open>Acquire\<close>, \<^verbatim>\<open>isConnectionExpired\<close>, \<^verbatim>\<open>Release\<close>,
  \<^verbatim>\<open>Cleaner\<close>, \<^verbatim>\<open>CloseExpiredConnections\<close> and \<^verbatim>\<open>MaintainMinConnections\<close>
  are the same text in both packages but for the type of the wrapped handle, so they are
  modelled once, with the handle type as the parameter \<open>'r\<close>. \<^verbatim>\<open>Close\<close> differs and is
  modelled twice.

  The model is sequential: one call runs at a time, and a channel operation that cannot
  proceed without another goroutine is the outcome \<open>Blocks\<close>. What the scheduler
  decides in a \<^verbatim>\<open>select\<close> is an input, read from the state outside the pool.
\<close>

subsection \<open>Time, connections, and the state outside the pool\<close>

text \<open>
  \<^verbatim>\<open>time.Time\<close> is an instant on an integer time line (nanoseconds) and
  \<^verbatim>\<open>time.Duration\<close> an integer number of nanoseconds; \<^verbatim>\<open>t.Add(d)\<close> is \<open>t + d\<close>
  and \<^verbatim>\<open>t.Before(u)\<close> is \<open>t < u\<close>. The range limits of the two Go types are
  not modelled.
\<close>

type_synonym time = int
type_synonym duration = int

text \<open>A \<^verbatim>\<open>*DBConn\<close> (or \<^verbatim>\<open>*RedisConn\<close>): \<open>None\<close> is the nil pointer.\<close>

type_synonym connptr = "nat option"

record 'r DBConn =
  DB :: 'r
  HeartBeat :: time
  TimeOut :: duration

text \<open>
  What the pool functions read and write outside the pool object: the package-level
  \<^verbatim>\<open>var once sync.Once\<close> of \<^verbatim>\<open>dbpool\<close> (has it fired?), the connection objects
  the pointers point to, the calls of \<^verbatim>\<open>conn.DB.Close()\<close> made so far, oldest first,
  the clock: \<open>clock w k\<close> is what the \<open>k\<close>-th call of \<^verbatim>\<open>time.Now()\<close> returns, and
  the races still to come: \<open>races w 0\<close> decides the next \<^verbatim>\<open>select\<close> between a receive
  and a timer, \<open>races w 1\<close> the one after it, and so on. A race is the time (in
  nanoseconds) that passes between the start of the timer and the moment the
  \<^verbatim>\<open>select\<close> looks at its cases, and whether the timer case is the one picked when
  both cases are ready.
\<close>

record 'r world =
  once_done :: bool
  heap :: "nat \<Rightarrow> 'r DBConn"
  closed_log :: "'r list"
  clock :: "nat \<Rightarrow> time"
  reads :: nat
  races :: "nat \<Rightarrow> nat \<times> bool"

definition time_Now :: "'r world \<Rightarrow> time \<times> 'r world" where
  "time_Now w = (clock w (reads w), w\<lparr>reads := Suc (reads w)\<rparr>)"

text \<open>
  \<^verbatim>\<open>conn.DB.Close()\<close> (\<^verbatim>\<open>conn.Conn.Close()\<close> in \<^verbatim>\<open>redispool\<close>). Every caller drops
  its error result. The handle is opaque: what the driver does on closing, and a nil
  handle, are not modelled.
\<close>

definition DB_Close :: "'r \<Rightarrow> 'r world \<Rightarrow> 'r world" where
  "DB_Close r w = w\<lparr>closed_log := closed_log w @ [r]\<rparr>"

datatype error = Error string

datatype panic =
  NilDereference
  | CloseOfClosedChannel
  | SendOnClosedChannel
  | MakechanSizeOutOfRange

text \<open>
  How a call ends: it returns a result, it panics, or it blocks for ever on a channel.
  Each carries the state reached at that point.
\<close>

datatype ('a, 's) outcome = Returns 'a 's | Panics panic 's | Blocks 's

subsection \<open>Channels\<close>

record 'a chan =
  ch_cap :: nat
  ch_buf :: "'a list"
  ch_closed :: bool



text \<open>\<^verbatim>\<open>make(chan T)\<close>: the unbuffered channel.\<close>

definition make_chan_unbuffered :: "'a chan" where
  "make_chan_unbuffered = \<lparr>ch_cap = 0, ch_buf = [], ch_closed = False\<rparr>"

datatype 'a send_result = Sent "'a chan" | SendBlocks | SendPanics

text \<open>
  \<^verbatim>\<open>c <- v\<close> with no goroutine receiving: a panic on a closed channel, a deposit
  when the buffer has room, and otherwise the sender waits.
\<close>

definition chan_send :: "'a chan \<Rightarrow> 'a \<Rightarrow> 'a send_result" where
  "chan_send c v =
     (if ch_closed c then SendPanics
      else if length (ch_buf c) < ch_cap c then Sent (c\<lparr>ch_buf := ch_buf c @ [v]\<rparr>)
      else SendBlocks)"

datatype 'a recv_result = Received 'a "'a chan" | ClosedEmpty | RecvBlocks

text \<open>
  \<^verbatim>\<open><-c\<close> with no goroutine sending: the oldest buffered value; on an empty closed
  channel the receive is ready at once and yields the zero value; on an empty open
  channel the receiver waits.
\<close>

definition chan_recv :: "'a chan \<Rightarrow> 'a recv_result" where
  "chan_recv c =
     (case ch_buf c of
        v # vs \<Rightarrow> Received v (c\<lparr>ch_buf := vs\<rparr>)
      | [] \<Rightarrow> if ch_closed c then ClosedEmpty else RecvBlocks)"

text \<open>
  \<^verbatim>\<open>select { case v := <-c: ... case <-time.After(d): ... }\<close>. The timer is started
  when the \<^verbatim>\<open>select\<close> is entered and is ready once \<open>d\<close> has passed, at once when
  \<open>d \<le> 0\<close>. When the \<^verbatim>\<open>select\<close> looks at its cases and only the receive is ready, it
  takes the receive; when both are ready, it picks one of them at random; when the
  receive is not ready, it waits, and with no other goroutine only the timer can end
  the wait. The race is taken from the state, which moves on to the next one.
\<close>

datatype 'a select_result = SelReceived 'a "'a chan" | SelClosed | SelTimer

definition select_recv_timer ::
  "'a chan \<Rightarrow> duration \<Rightarrow> 'r world \<Rightarrow> 'a select_result \<times> 'r world" where
  "select_recv_timer c d w =
     (let (elapsed, timer_first) = races w 0;
          timer_ready = (d \<le> int elapsed);
          w' = w\<lparr>races := (\<lambda>k. races w (Suc k))\<rparr>
      in case chan_recv c of
           Received v c' \<Rightarrow>
             if timer_ready \<and> timer_first then (SelTimer, w') else (SelReceived v c', w')
         | ClosedEmpty \<Rightarrow>
             if timer_ready \<and> timer_first then (SelTimer, w') else (SelClosed, w')
         | RecvBlocks \<Rightarrow> (SelTimer, w'))"

text \<open>\<^verbatim>\<open>close(c)\<close>: \<open>None\<close> is the panic on a channel that is closed already.\<close>

definition chan_close :: "'a chan \<Rightarrow> 'a chan option" where
  "chan_close c = (if ch_closed c then None else Some (c\<lparr>ch_closed := True\<rparr>))"

subsection \<open>The pool\<close>

record Ticker =
  running :: bool

text \<open>
  \<^verbatim>\<open>OpenConnection func() (*DBConn, error)\<close> is any Go closure: it may allocate a
  connection, read the clock, fail, or return a pointer it returned before.
\<close>

type_synonym 'r factory = "'r world \<Rightarrow> (error + connptr) \<times> 'r world"

record 'r ConnectionPool =
  conns :: "connptr chan"
  maxConnections :: int
  minConnections :: int
  waitTimeout :: duration
  OpenConnection :: "'r factory option"
  cleanupTicker :: "Ticker option"

type_synonym 'r pstate = "'r ConnectionPool \<times> 'r world"


text \<open>
  \<^verbatim>\<open>conn.HeartBeat.Add(conn.TimeOut).Before(time.Now())\<close>; reading a field of a nil
  \<open>conn\<close> panics before the clock is read.
\<close>

definition isConnectionExpired ::
  "'r ConnectionPool \<Rightarrow> connptr \<Rightarrow> 'r world \<Rightarrow> (bool, 'r world) outcome" where
  "isConnectionExpired p conn w =
     (case conn of
        None \<Rightarrow> Panics NilDereference w
      | Some a \<Rightarrow>
          (let deadline = HeartBeat (heap w a) + TimeOut (heap w a);
               (now, w') = time_Now w
           in Returns (deadline < now) w'))"

text \<open>The body of the first \<^verbatim>\<open>select\<close> case of \<^verbatim>\<open>Acquire\<close>, for the received \<open>conn\<close>.\<close>

definition Acquire_received ::
  "'r ConnectionPool \<Rightarrow> connptr \<Rightarrow> 'r world \<Rightarrow> (connptr \<times> error option, 'r pstate) outcome" where
  "Acquire_received p conn w =
     (case isConnectionExpired p conn w of
        Panics e w' \<Rightarrow> Panics e (p, w')
      | Blocks w' \<Rightarrow> Blocks (p, w')
      | Returns expired w' \<Rightarrow>
          if expired then
            (case conn of
               None \<Rightarrow> Panics NilDereference (p, w')
             | Some a \<Rightarrow>
                 Returns (None, Some (Error ''connection expired''))
                   (p, DB_Close (DB (heap w' a)) w'))
          else Returns (conn, None) (p, w'))"

text \<open>
  \<^verbatim>\<open>Acquire\<close>: the \<^verbatim>\<open>select\<close> between the receive from \<^verbatim>\<open>p.conns\<close> and
  \<^verbatim>\<open>time.After(p.waitTimeout)\<close>. A receive from the closed, drained channel yields nil.
\<close>

definition Acquire ::
  "'r ConnectionPool \<Rightarrow> 'r world \<Rightarrow> (connptr \<times> error option, 'r pstate) outcome" where
  "Acquire p w =
     (case select_recv_timer (conns p) (waitTimeout p) w of
        (SelReceived conn c', w1) \<Rightarrow> Acquire_received (p\<lparr>conns := c'\<rparr>) conn w1
      | (SelClosed, w1) \<Rightarrow> Acquire_received p None w1
      | (SelTimer, w1) \<Rightarrow>
          Returns (None, Some (Error ''timeout waiting for connection'')) (p, w1))"

text \<open>
  \<^verbatim>\<open>conn.HeartBeat = time.Now()\<close> evaluates its right-hand side first, so a nil
  \<open>conn\<close> panics after the clock is read.
\<close>

definition Release ::
  "'r ConnectionPool \<Rightarrow> connptr \<Rightarrow> 'r world \<Rightarrow> (unit, 'r pstate) outcome" where
  "Release p conn w =
     (let (now, w1) = time_Now w
      in case conn of
           None \<Rightarrow> Panics NilDereference (p, w1)
         | Some a \<Rightarrow>
             (let w2 = w1\<lparr>heap := (heap w1)(a := (heap w1 a)\<lparr>HeartBeat := now\<rparr>)\<rparr>
              in case chan_send (conns p) conn of
                   Sent c' \<Rightarrow> Returns () (p\<lparr>conns := c'\<rparr>, w2)
                 | SendBlocks \<Rightarrow> Blocks (p, w2)
                 | SendPanics \<Rightarrow> Panics SendOnClosedChannel (p, w2)))"

text \<open>
  \<^verbatim>\<open>for conn := range p.conns { conn.DB.Close() }\<close>: the loop ends when the channel is
  closed and drained, and waits for ever on an empty channel that is still open.
\<close>

function Close_range :: "'r ConnectionPool \<Rightarrow> 'r world \<Rightarrow> (unit, 'r pstate) outcome" where
  "Close_range p w =
     (case chan_recv (conns p) of
        Received conn c' \<Rightarrow>
          (case conn of
             None \<Rightarrow> Panics NilDereference (p\<lparr>conns := c'\<rparr>, w)
           | Some a \<Rightarrow> Close_range (p\<lparr>conns := c'\<rparr>) (DB_Close (DB (heap w a)) w))
      | ClosedEmpty \<Rightarrow> Returns () (p, w)
      | RecvBlocks \<Rightarrow> Blocks (p, w))"
  by pat_completeness auto
termination
  by (relation "measure (\<lambda>(p, w). length (ch_buf (conns p)))")
     (auto simp: chan_recv_def split: list.splits if_splits)

text \<open>
  \<^verbatim>\<open>dbpool\<close>'s \<^verbatim>\<open>Close\<close>. \<^verbatim>\<open>p.cleanupTicker.Stop()\<close> dereferences the ticker;
  \<^verbatim>\<open>once.Do\<close> runs \<^verbatim>\<open>close(p.conns)\<close> only if the package's \<^verbatim>\<open>once\<close> has not fired,
  and marks it fired even when the function panics.
\<close>

definition Close :: "'r ConnectionPool \<Rightarrow> 'r world \<Rightarrow> (unit, 'r pstate) outcome" where
  "Close p w =
     (case cleanupTicker p of
        None \<Rightarrow> Panics NilDereference (p, w)
      | Some t \<Rightarrow>
          (let p1 = p\<lparr>cleanupTicker := Some (t\<lparr>running := False\<rparr>)\<rparr>
           in if once_done w then Close_range p1 w
              else (case chan_close (conns p1) of
                      None \<Rightarrow> Panics CloseOfClosedChannel (p1, w\<lparr>once_done := True\<rparr>)
                    | Some c' \<Rightarrow> Close_range (p1\<lparr>conns := c'\<rparr>) (w\<lparr>once_done := True\<rparr>))))"

text \<open>\<^verbatim>\<open>redispool\<close>'s \<^verbatim>\<open>Close\<close>: no ticker, no guard.\<close>

definition Redis_Close :: "'r ConnectionPool \<Rightarrow> 'r world \<Rightarrow> (unit, 'r pstate) outcome" where
  "Redis_Close p w =
     (case chan_close (conns p) of
        None \<Rightarrow> Panics CloseOfClosedChannel (p, w)
      | Some c' \<Rightarrow> Close_range (p\<lparr>conns := c'\<rparr>) w)"

subsection \<open>The maintenance tick\<close>

text \<open>
  The loop of \<^verbatim>\<open>CloseExpiredConnections\<close>. Each round is a \<^verbatim>\<open>select\<close> between a
  receive from \<^verbatim>\<open>p.conns\<close> and a fresh timer of the length \<open>timeout\<close>. \<open>newConns\<close> is
  the local channel the survivors are sent to.
\<close>

function CloseExpired_loop ::
  "duration \<Rightarrow> connptr chan \<Rightarrow> 'r ConnectionPool \<Rightarrow> 'r world \<Rightarrow> (unit, 'r pstate) outcome"
  where
  "CloseExpired_loop timeout newConns p w =
     (case select_recv_timer (conns p) timeout w of
        (SelReceived conn c', w0) \<Rightarrow>
          (case conn of
             None \<Rightarrow> Panics NilDereference (p\<lparr>conns := c'\<rparr>, w0)
           | Some a \<Rightarrow>
               (let deadline = HeartBeat (heap w0 a) + TimeOut (heap w0 a);
                    (now, w') = time_Now w0
                in if \<not> deadline < now then
                     (case chan_send newConns conn of
                        Sent nc \<Rightarrow> CloseExpired_loop timeout nc (p\<lparr>conns := c'\<rparr>) w'
                      | SendBlocks \<Rightarrow> Blocks (p\<lparr>conns := c'\<rparr>, w')
                      | SendPanics \<Rightarrow> Panics SendOnClosedChannel (p\<lparr>conns := c'\<rparr>, w'))
                   else CloseExpired_loop timeout newConns (p\<lparr>conns := c'\<rparr>)
                          (DB_Close (DB (heap w' a)) w')))
      | (SelClosed, w0) \<Rightarrow> Panics NilDereference (p, w0)
      | (SelTimer, w0) \<Rightarrow> Returns () (p\<lparr>conns := newConns\<rparr>, w0))"
  by pat_completeness auto
termination
  by (relation "measure (\<lambda>(t, nc, p, w). length (ch_buf (conns p)))")
     (auto simp: select_recv_timer_def chan_recv_def Let_def
       split: list.splits if_splits prod.splits)

text \<open>
  \<^verbatim>\<open>timeout = time.Duration(len(p.conns)) * timePerConn\<close>, with \<^verbatim>\<open>timePerConn\<close> 10ms,
  and \<^verbatim>\<open>newConns := make(chan *DBConn)\<close>.
\<close>

definition CloseExpiredConnections ::
  "'r ConnectionPool \<Rightarrow> 'r world \<Rightarrow> (unit, 'r pstate) outcome" where
  "CloseExpiredConnections p w =
     CloseExpired_loop (int (length (ch_buf (conns p))) * 10000000) make_chan_unbuffered p w"

text \<open>
  The loop of \<^verbatim>\<open>MaintainMinConnections\<close>: \<open>i\<close> counts up on a failed
  \<^verbatim>\<open>OpenConnection\<close> too (\<^verbatim>\<open>continue\<close>). Calling a nil \<^verbatim>\<open>OpenConnection\<close> panics.
\<close>

function Maintain_loop ::
  "int \<Rightarrow> 'r ConnectionPool \<Rightarrow> 'r world \<Rightarrow> (unit, 'r pstate) outcome" where
  "Maintain_loop i p w =
     (if i < minConnections p then
        (case OpenConnection p of
           None \<Rightarrow> Panics NilDereference (p, w)
         | Some f \<Rightarrow>
             (case f w of
                (Inl e, w') \<Rightarrow> Maintain_loop (i + 1) p w'
              | (Inr conn, w') \<Rightarrow>
                  (case chan_send (conns p) conn of
                     Sent c' \<Rightarrow> Maintain_loop (i + 1) (p\<lparr>conns := c'\<rparr>) w'
                   | SendBlocks \<Rightarrow> Blocks (p, w')
                   | SendPanics \<Rightarrow> Panics SendOnClosedChannel (p, w'))))
      else Returns () (p, w))"
  by pat_completeness auto
termination
  by (relation "measure (\<lambda>(i, p, w). nat (minConnections p - i))") auto

definition MaintainMinConnections ::
  "'r ConnectionPool \<Rightarrow> 'r world \<Rightarrow> (unit, 'r pstate) outcome" where
  "MaintainMinConnections p w = Maintain_loop (int (length (ch_buf (conns p)))) p w"

definition Cleaner :: "'r ConnectionPool \<Rightarrow> 'r world \<Rightarrow> (unit, 'r pstate) outcome" where
  "Cleaner p w =
     (case CloseExpiredConnections p w of
        Returns u (p', w') \<Rightarrow> MaintainMinConnections p' w'
      | Panics e s \<Rightarrow> Panics e s
      | Blocks s \<Rightarrow> Blocks s)"

subsection \<open>Callers\<close>

text \<open>
  Who holds what. A caller holds an entry from the \<^verbatim>\<open>Acquire\<close> that returned it until
  it passes it to \<^verbatim>\<open>Release\<close>; \<open>held\<close> lists the holdings, newest first, one pair for
  each handout. A step is one completed call; a call that panics or blocks is no step.
\<close>

datatype 'c action = Acq 'c | Rel 'c connptr

record ('r, 'c) system =
  pool :: "'r ConnectionPool"
  outside :: "'r world"
  held :: "('c \<times> nat) list"

definition step :: "'c action \<Rightarrow> ('r, 'c) system \<Rightarrow> ('r, 'c) system option" where
  "step act s =
     (case act of
        Acq c \<Rightarrow>
          (case Acquire (pool s) (outside s) of
             Returns (conn, e) (p', w') \<Rightarrow>
               Some \<lparr>pool = p', outside = w',
                     held = (case conn of None \<Rightarrow> held s | Some a \<Rightarrow> (c, a) # held s)\<rparr>
           | Panics e st \<Rightarrow> None
           | Blocks st \<Rightarrow> None)
      | Rel c conn \<Rightarrow>
          (case Release (pool s) conn (outside s) of
             Returns u (p', w') \<Rightarrow>
               Some \<lparr>pool = p', outside = w',
                     held = (case conn of None \<Rightarrow> held s
                             | Some a \<Rightarrow> remove1 (c, a) (held s))\<rparr>
           | Panics e st \<Rightarrow> None
           | Blocks st \<Rightarrow> None))"

fun exec :: "'c action list \<Rightarrow> ('r, 'c) system \<Rightarrow> ('r, 'c) system option" where
  "exec [] s = Some s"
| "exec (act # acts) s = (case step act s of None \<Rightarrow> None | Some s' \<Rightarrow> exec acts s')"

text \<open>The entries behind the non-nil pointers of a buffer.\<close>

fun pointees :: "connptr list \<Rightarrow> nat list" where
  "pointees [] = []"
| "pointees (None # cs) = pointees cs"
| "pointees (Some a # cs) = a # pointees cs"

text \<open>
  No entry is held twice, no entry is twice in the store, and no entry is both held and
  in the store.
\<close>

definition exclusive :: "('r, 'c) system \<Rightarrow> bool" where
  "exclusive s =
     (distinct (map snd (held s)) \<and>
      distinct (pointees (ch_buf (conns (pool s)))) \<and>
      set (pointees (ch_buf (conns (pool s)))) \<inter> snd ` set (held s) = {})"

text \<open>A caller that releases only what it holds.\<close>

fun owns_released :: "'c action \<Rightarrow> ('r, 'c) system \<Rightarrow> bool" where
  "owns_released (Acq c) s = True"
| "owns_released (Rel c None) s = True"
| "owns_released (Rel c (Some a)) s = ((c, a) \<in> set (held s))"

fun disciplined :: "'c action list \<Rightarrow> ('r, 'c) system \<Rightarrow> bool" where
  "disciplined [] s = True"
| "disciplined (act # acts) s =
     (owns_released act s \<and>
      (case step act s of None \<Rightarrow> True | Some s' \<Rightarrow> disciplined acts s'))"

subsection \<open>Successive factory calls\<close>

text \<open>
  The connections that \<open>n\<close> successive calls of a factory create, failed calls left
  out, and the state after the last call.
\<close>

fun factory_calls :: "'r factory \<Rightarrow> nat \<Rightarrow> 'r world \<Rightarrow> connptr list \<times> 'r world" where
  "factory_calls f 0 w = ([], w)"
| "factory_calls f (Suc n) w =
     (case f w of
        (Inl e, w') \<Rightarrow> factory_calls f n w'
      | (Inr conn, w') \<Rightarrow> (case factory_calls f n w' of (cs, w'') \<Rightarrow> (conn # cs, w'')))"

subsection \<open>Sample states\<close>

text \<open>
  The connection at address \<open>a\<close> wraps the handle \<open>a\<close>, was last active at \<open>100 * a\<close>
  and has a time-out of 10; the clock always reads 150. So the connections 0 and 1 are
  past their deadline and 2, 3, ... are not. Every \<^verbatim>\<open>select\<close> looks at its cases at
  once and prefers the receive.
\<close>

definition sample_world :: "nat world" where
  "sample_world =
     \<lparr>once_done = False,
      heap = (\<lambda>a. \<lparr>DB = a, HeartBeat = 100 * int a, TimeOut = 10\<rparr>),
      closed_log = [], clock = (\<lambda>k. 150), reads = 0, races = (\<lambda>k. (0, False))\<rparr>"

text \<open>
  A factory in the manner of the repository's \<^verbatim>\<open>openNewConnection\<close>: every call
  succeeds and returns a new connection whose \<open>HeartBeat\<close> is the clock reading. The
  connection made at the \<open>k\<close>-th clock reading lives at address \<open>10 + k\<close>.
\<close>

definition sample_factory :: "nat factory" where
  "sample_factory w =
     (let (now, w1) = time_Now w; a = 10 + reads w
      in (Inr (Some a),
          w1\<lparr>heap := (heap w1)(a := \<lparr>DB = a, HeartBeat = now, TimeOut = 3000\<rparr>)\<rparr>))"

text \<open>
  A pool as \<^verbatim>\<open>New(3, 2, 5*time.Second)\<close> makes it, with the factory that always
  succeeds, a running ticker and the given idle connections.
\<close>

definition sample_pool :: "connptr list \<Rightarrow> nat ConnectionPool" where
  "sample_pool idle =
     \<lparr>conns = \<lparr>ch_cap = 3, ch_buf = idle, ch_closed = False\<rparr>,
      maxConnections = 3, minConnections = 2, waitTimeout = 5000000000,
      OpenConnection = Some sample_factory,
      cleanupTicker = Some \<lparr>running = True\<rparr>\<rparr>"

text \<open>The same world with the clock at 110, the deadline of connection 1.\<close>

definition deadline_world :: "nat world" where
  "deadline_world =
     \<lparr>once_done = False,
      heap = (\<lambda>a. \<lparr>DB = a, HeartBeat = 100 * int a, TimeOut = 10\<rparr>),
      closed_log = [], clock = (\<lambda>k. 110), reads = 0, races = (\<lambda>k. (0, False))\<rparr>"

text \<open>Callers are numbered; at the start nobody holds anything.\<close>

definition sample_system :: "connptr list \<Rightarrow> (nat, nat) system" where
  "sample_system idle = \<lparr>pool = sample_pool idle, outside = sample_world, held = []\<rparr>"

declare Close_range.simps [simp del]
declare CloseExpired_loop.simps [simp del]
declare Maintain_loop.simps [simp del]

lemmas sample_defs = sample_pool_def sample_world_def

lemmas chan_defs =
  chan_recv_def chan_send_def chan_close_def make_chan_unbuffered_def

section \<open>The select\<close>

text \<open>
  What a \<^verbatim>\<open>select\<close> between a receive and a timer can return, and when it takes a
  receive that is ready: whenever the timer is not ready, or loses the draw.
\<close>

lemma select_received:
  "select_recv_timer c d w = (SelReceived v c', w') \<Longrightarrow>
   ch_buf c = v # ch_buf c' \<and> c' = c\<lparr>ch_buf := ch_buf c'\<rparr> \<and>
   w' = w\<lparr>races := (\<lambda>k. races w (Suc k))\<rparr>"
  by (auto simp: select_recv_timer_def chan_recv_def Let_def
      split: list.splits if_splits prod.splits)

lemma select_closed:
  "select_recv_timer c d w = (SelClosed, w') \<Longrightarrow>
   ch_buf c = [] \<and> ch_closed c \<and> w' = w\<lparr>races := (\<lambda>k. races w (Suc k))\<rparr>"
  by (auto simp: select_recv_timer_def chan_recv_def Let_def
      split: list.splits if_splits prod.splits)

lemma select_timer:
  "select_recv_timer c d w = (SelTimer, w') \<Longrightarrow> w' = w\<lparr>races := (\<lambda>k. races w (Suc k))\<rparr>"
  by (auto simp: select_recv_timer_def chan_recv_def Let_def
      split: list.splits if_splits prod.splits)

lemma select_takes_ready_receive:
  assumes "ch_buf c = v # vs"
    and "\<not> (d \<le> int (fst (races w 0)) \<and> snd (races w 0))"
  shows "select_recv_timer c d w =
           (SelReceived v (c\<lparr>ch_buf := vs\<rparr>), w\<lparr>races := (\<lambda>k. races w (Suc k))\<rparr>)"
  using assms
  by (auto simp: select_recv_timer_def chan_recv_def Let_def split: prod.splits)

lemma select_takes_closed:
  assumes "chan_recv c = ClosedEmpty"
    and "\<not> (d \<le> int (fst (races w 0)) \<and> snd (races w 0))"
  shows "select_recv_timer c d w = (SelClosed, w\<lparr>races := (\<lambda>k. races w (Suc k))\<rparr>)"
  using assms
  by (auto simp: select_recv_timer_def Let_def split: prod.splits)

section \<open>Construction\<close>




section \<open>Expiry\<close>

text \<open>
  C8 (as amended). A connection is expired exactly when the clock reading is strictly
  after \<open>HeartBeat + TimeOut\<close>.
\<close>

theorem isConnectionExpired_strict:
  "isConnectionExpired p (Some a) w =
     Returns (HeartBeat (heap w a) + TimeOut (heap w a) < clock w (reads w))
       (w\<lparr>reads := Suc (reads w)\<rparr>)"
  by (simp add: isConnectionExpired_def time_Now_def)

text \<open>
  At the deadline itself the connection does not count as expired: connection 1 has
  \<open>HeartBeat = 100\<close> and \<open>TimeOut = 10\<close>, and the clock reads 110.
\<close>

theorem not_expired_at_deadline:
  "HeartBeat (heap deadline_world 1) + TimeOut (heap deadline_world 1) = 110 \<and>
   clock deadline_world (reads deadline_world) = 110 \<and>
   isConnectionExpired (sample_pool []) (Some 1) deadline_world =
     Returns False (deadline_world\<lparr>reads := 1\<rparr>)"
  by (simp add: isConnectionExpired_def time_Now_def sample_pool_def deadline_world_def)

section \<open>Acquire\<close>

text \<open>
  C3 (as amended). When \<^verbatim>\<open>Acquire\<close> pulls the entry \<open>a\<close> from the store, the entry was
  the oldest idle one and has left the store. If the clock reading is strictly after
  its \<open>HeartBeat + TimeOut\<close>, its handle is closed and the caller gets a nil entry with
  the error \<^verbatim>\<open>connection expired\<close>; otherwise, also when the clock reads exactly
  \<open>HeartBeat + TimeOut\<close>, the caller gets the entry and no error.
\<close>

theorem Acquire_checks_deadline:
  assumes "select_recv_timer (conns p) (waitTimeout p) w = (SelReceived (Some a) c', w1)"
  shows "ch_buf (conns p) = Some a # ch_buf c' \<and>
         Acquire p w =
           (if HeartBeat (heap w a) + TimeOut (heap w a) < clock w (reads w)
            then Returns (None, Some (Error ''connection expired''))
                   (p\<lparr>conns := c'\<rparr>, DB_Close (DB (heap w a)) (w1\<lparr>reads := Suc (reads w)\<rparr>))
            else Returns (Some a, None) (p\<lparr>conns := c'\<rparr>, w1\<lparr>reads := Suc (reads w)\<rparr>))"
proof -
  from select_received [OF assms]
  have buf: "ch_buf (conns p) = Some a # ch_buf c'"
    and w1: "w1 = w\<lparr>races := (\<lambda>k. races w (Suc k))\<rparr>" by simp_all
  from assms w1 have "Acquire p w =
      (if HeartBeat (heap w a) + TimeOut (heap w a) < clock w (reads w)
       then Returns (None, Some (Error ''connection expired''))
              (p\<lparr>conns := c'\<rparr>, DB_Close (DB (heap w a)) (w1\<lparr>reads := Suc (reads w)\<rparr>))
       else Returns (Some a, None) (p\<lparr>conns := c'\<rparr>, w1\<lparr>reads := Suc (reads w)\<rparr>))"
    by (simp add: Acquire_def Acquire_received_def isConnectionExpired_def time_Now_def)
  with buf show ?thesis by simp
qed

text \<open>
  A witness for each branch: connection 1 is past its deadline, connection 2 is not.
\<close>

theorem Acquire_checks_deadline_witness:
  "Acquire (sample_pool [Some 1, Some 2]) sample_world =
     Returns (None, Some (Error ''connection expired''))
       (sample_pool [Some 2], sample_world\<lparr>closed_log := [1], reads := 1\<rparr>) \<and>
   Acquire (sample_pool [Some 2, Some 1]) sample_world =
     Returns (Some 2, None) (sample_pool [Some 1], sample_world\<lparr>reads := 1\<rparr>)"
proof -
  have s1: "select_recv_timer (conns (sample_pool [Some 1, Some 2]))
        (waitTimeout (sample_pool [Some 1, Some 2])) sample_world =
      (SelReceived (Some 1) (conns (sample_pool [Some 2])), sample_world)"
    and s2: "select_recv_timer (conns (sample_pool [Some 2, Some 1]))
        (waitTimeout (sample_pool [Some 2, Some 1])) sample_world =
      (SelReceived (Some 2) (conns (sample_pool [Some 1])), sample_world)"
    by (simp_all add: select_recv_timer_def chan_recv_def sample_defs)
  from Acquire_checks_deadline [OF s1] Acquire_checks_deadline [OF s2]
  show ?thesis
    by (simp add: DB_Close_def sample_defs)
qed

text \<open>
  At the deadline itself the entry is handed out: connection 1 has \<open>HeartBeat = 100\<close>
  and \<open>TimeOut = 10\<close>, the clock reads 110, and \<^verbatim>\<open>Acquire\<close> returns connection 1 with no
  error.
\<close>

theorem Acquire_hands_out_at_deadline:
  "HeartBeat (heap deadline_world 1) + TimeOut (heap deadline_world 1) =
     clock deadline_world (reads deadline_world) \<and>
   Acquire (sample_pool [Some 1]) deadline_world =
     Returns (Some 1, None) (sample_pool [], deadline_world\<lparr>reads := 1\<rparr>)"
  by (simp add: Acquire_def Acquire_received_def isConnectionExpired_def time_Now_def
      select_recv_timer_def chan_recv_def sample_pool_def deadline_world_def)

text \<open>
  \<^verbatim>\<open>Acquire\<close> need not pull an entry that is ready. With \<open>waitTimeout = 0\<close> the timer is
  ready as well, and when the \<^verbatim>\<open>select\<close> picks it, the caller gets the time-out error
  and the entry stays in the store.
\<close>

lemma Acquire_timer_race:
  "Acquire ((sample_pool [Some 2])\<lparr>waitTimeout := 0\<rparr>)
       (sample_world\<lparr>races := (\<lambda>k. (0, True))\<rparr>) =
     Returns (None, Some (Error ''timeout waiting for connection''))
       ((sample_pool [Some 2])\<lparr>waitTimeout := 0\<rparr>,
        sample_world\<lparr>races := (\<lambda>k. (0, True))\<rparr>)"
  by (simp add: Acquire_def select_recv_timer_def chan_recv_def sample_defs)

section \<open>One holder for each entry\<close>

lemma pointees_append: "pointees (cs @ ds) = pointees cs @ pointees ds"
  by (induction cs rule: pointees.induct) simp_all

lemma distinct_map_snd_remove1:
  "distinct (map snd hs) \<Longrightarrow> distinct (map snd (remove1 h hs))"
  by (induction hs) (auto simp: image_iff dest: notin_set_remove1)

lemma snd_remove1_gone:
  "distinct (map snd hs) \<Longrightarrow> (c, a) \<in> set hs \<Longrightarrow> a \<notin> snd ` set (remove1 (c, a) hs)"
  by (induction hs) (auto simp: image_iff)

lemma snd_remove1_subset: "snd ` set (remove1 h hs) \<subseteq> snd ` set hs"
  using set_remove1_subset [of h hs] by blast

text \<open>
  What a completed \<^verbatim>\<open>Acquire\<close> changes: nothing (the time-out), or the oldest idle
  entry leaves the store and is either dropped (it was expired) or handed to the caller.
\<close>

lemma Acquire_step_cases:
  assumes "step (Acq c) s = Some s'"
  shows "(ch_buf (conns (pool s')) = ch_buf (conns (pool s)) \<and> held s' = held s) \<or>
         (\<exists>a idle. ch_buf (conns (pool s)) = Some a # idle \<and>
                    ch_buf (conns (pool s')) = idle \<and>
                    (held s' = held s \<or> held s' = (c, a) # held s))"
proof -
  obtain r w1 where sel:
    "select_recv_timer (conns (pool s)) (waitTimeout (pool s)) (outside s) = (r, w1)"
    by (cases "select_recv_timer (conns (pool s)) (waitTimeout (pool s)) (outside s)")
  show ?thesis
  proof (cases r)
    case (SelReceived conn c')
    with sel select_received [of "conns (pool s)" "waitTimeout (pool s)" "outside s" conn c' w1]
    have buf: "ch_buf (conns (pool s)) = conn # ch_buf c'" by simp
    show ?thesis
    proof (cases conn)
      case None
      with assms sel SelReceived show ?thesis
        by (simp add: step_def Acquire_def Acquire_received_def isConnectionExpired_def)
    next
      case (Some a)
      with assms sel SelReceived
      have "ch_buf (conns (pool s')) = ch_buf c' \<and>
            (held s' = held s \<or> held s' = (c, a) # held s)"
        by (auto simp: step_def Acquire_def Acquire_received_def isConnectionExpired_def
            time_Now_def split: if_splits)
      with buf Some show ?thesis by simp
    qed
  next
    case SelClosed
    with assms sel show ?thesis
      by (simp add: step_def Acquire_def Acquire_received_def isConnectionExpired_def)
  next
    case SelTimer
    with assms sel show ?thesis
      by (auto simp: step_def Acquire_def)
  qed
qed

lemma Acquire_exclusive:
  assumes "exclusive s" and "step (Acq c) s = Some s'"
  shows "exclusive s'"
proof -
  from assms(1) have d1: "distinct (map snd (held s))"
    and d2: "distinct (pointees (ch_buf (conns (pool s))))"
    and d3: "set (pointees (ch_buf (conns (pool s)))) \<inter> snd ` set (held s) = {}"
    by (simp_all add: exclusive_def)
  from Acquire_step_cases [OF assms(2)] show ?thesis
  proof (elim disjE exE conjE)
    assume "ch_buf (conns (pool s')) = ch_buf (conns (pool s))" "held s' = held s"
    with d1 d2 d3 show ?thesis by (simp add: exclusive_def)
  next
    fix a idle
    assume buf: "ch_buf (conns (pool s)) = Some a # idle"
      and buf': "ch_buf (conns (pool s')) = idle"
      and hs: "held s' = held s"
    from d2 d3 buf have "distinct (pointees idle)"
      and "set (pointees idle) \<inter> snd ` set (held s) = {}" by auto
    with d1 buf' hs show ?thesis by (simp add: exclusive_def)
  next
    fix a idle
    assume buf: "ch_buf (conns (pool s)) = Some a # idle"
      and buf': "ch_buf (conns (pool s')) = idle"
      and hs: "held s' = (c, a) # held s"
    from d2 buf have a1: "a \<notin> set (pointees idle)" and a2: "distinct (pointees idle)"
      by simp_all
    from d3 buf have a3: "a \<notin> snd ` set (held s)"
      and a4: "set (pointees idle) \<inter> snd ` set (held s) = {}" by auto
    from a1 a4 have "set (pointees idle) \<inter> snd ` set ((c, a) # held s) = {}" by auto
    with d1 a2 a3 buf' hs show ?thesis by (simp add: exclusive_def)
  qed
qed

text \<open>\<^verbatim>\<open>Release\<close>, case by case.\<close>

lemma Release_nil:
  "Release p None w = Panics NilDereference (p, w\<lparr>reads := Suc (reads w)\<rparr>)"
  by (simp add: Release_def time_Now_def)

lemma Release_entry:
  "Release p (Some a) w =
     (if ch_closed (conns p)
      then Panics SendOnClosedChannel
             (p, w\<lparr>reads := Suc (reads w),
                   heap := (heap w)(a := (heap w a)\<lparr>HeartBeat := clock w (reads w)\<rparr>)\<rparr>)
      else if length (ch_buf (conns p)) < ch_cap (conns p)
      then Returns () (p\<lparr>conns := (conns p)\<lparr>ch_buf := ch_buf (conns p) @ [Some a]\<rparr>\<rparr>,
             w\<lparr>reads := Suc (reads w),
               heap := (heap w)(a := (heap w a)\<lparr>HeartBeat := clock w (reads w)\<rparr>)\<rparr>)
      else Blocks
             (p, w\<lparr>reads := Suc (reads w),
                   heap := (heap w)(a := (heap w a)\<lparr>HeartBeat := clock w (reads w)\<rparr>)\<rparr>))"
  by (simp add: Release_def time_Now_def chan_send_def)

lemma Release_step_cases:
  assumes "step (Rel c conn) s = Some s'"
  shows "\<exists>a. conn = Some a \<and>
             ch_buf (conns (pool s')) = ch_buf (conns (pool s)) @ [Some a] \<and>
             held s' = remove1 (c, a) (held s)"
proof (cases conn)
  case None
  with assms show ?thesis by (simp add: step_def Release_nil)
next
  case (Some a)
  with assms show ?thesis
    by (auto simp: step_def Release_entry split: if_splits)
qed

lemma disjoint_insert_shrink:
  "P \<inter> H = {} \<Longrightarrow> H' \<subseteq> H \<Longrightarrow> a \<notin> H' \<Longrightarrow> insert a P \<inter> H' = {}"
  by blast

lemma Release_exclusive:
  assumes "exclusive s" and "owns_released (Rel c conn) s" and "step (Rel c conn) s = Some s'"
  shows "exclusive s'"
proof -
  from Release_step_cases [OF assms(3)] obtain a where conn: "conn = Some a"
    and buf: "ch_buf (conns (pool s')) = ch_buf (conns (pool s)) @ [Some a]"
    and hs: "held s' = remove1 (c, a) (held s)"
    by blast
  from assms(2) conn have own: "(c, a) \<in> set (held s)" by simp
  from assms(1) have d1: "distinct (map snd (held s))"
    and d2: "distinct (pointees (ch_buf (conns (pool s))))"
    and d3: "set (pointees (ch_buf (conns (pool s)))) \<inter> snd ` set (held s) = {}"
    by (simp_all add: exclusive_def)
  from own have "a \<in> snd ` set (held s)" by force
  with d3 have fresh: "a \<notin> set (pointees (ch_buf (conns (pool s))))" by blast
  have "distinct (map snd (held s'))"
    using d1 hs by (simp add: distinct_map_snd_remove1)
  moreover have "distinct (pointees (ch_buf (conns (pool s'))))"
    using d2 fresh buf by (simp add: pointees_append)
  moreover have "set (pointees (ch_buf (conns (pool s')))) \<inter> snd ` set (held s') = {}"
  proof -
    have sub: "snd ` set (held s') \<subseteq> snd ` set (held s)"
      unfolding hs by (rule snd_remove1_subset)
    have gone: "a \<notin> snd ` set (held s')"
      unfolding hs by (rule snd_remove1_gone [OF d1 own])
    have "insert a (set (pointees (ch_buf (conns (pool s))))) \<inter> snd ` set (held s') = {}"
      using d3 sub gone by (rule disjoint_insert_shrink)
    then show ?thesis using buf by (simp add: pointees_append)
  qed
  ultimately show ?thesis by (simp add: exclusive_def)
qed

lemma step_exclusive:
  "exclusive s \<Longrightarrow> owns_released act s \<Longrightarrow> step act s = Some s' \<Longrightarrow> exclusive s'"
  by (cases act) (auto intro: Acquire_exclusive Release_exclusive)

text \<open>
  C2 (as amended). Start where no entry is held twice, none is twice in the store and
  none is both held and in the store. Then after any sequence of completed \<^verbatim>\<open>Acquire\<close>
  and \<^verbatim>\<open>Release\<close> calls in which every caller releases only an entry it holds at that
  moment, the same is true: no entry has two holders, and no entry that a caller holds
  is in the store for a second \<^verbatim>\<open>Acquire\<close> to return.
\<close>

theorem disciplined_callers_exclusive:
  "exclusive s \<Longrightarrow> disciplined acts s \<Longrightarrow> exec acts s = Some s' \<Longrightarrow> exclusive s'"
proof (induction acts arbitrary: s)
  case Nil
  then show ?case by simp
next
  case (Cons act acts)
  from Cons.prems(3) obtain t where t: "step act s = Some t" and rest: "exec acts t = Some s'"
    by (auto split: option.splits)
  from Cons.prems(2) t have "owns_released act s" and "disciplined acts t" by simp_all
  with Cons.prems(1) t have "exclusive t" by (blast intro: step_exclusive)
  with Cons.IH \<open>disciplined acts t\<close> rest show ?case by blast
qed

text \<open>
  A witness: caller 1 acquires entry 2, caller 2 acquires entry 3, caller 1 releases
  entry 2, and caller 2 acquires it.
\<close>

theorem disciplined_callers_exclusive_witness:
  "exclusive (sample_system [Some 2, Some 3]) \<and>
   disciplined [Acq 1, Acq 2, Rel 1 (Some 2), Acq 2] (sample_system [Some 2, Some 3]) \<and>
   map_option held (exec [Acq 1, Acq 2, Rel 1 (Some 2), Acq 2] (sample_system [Some 2, Some 3]))
     = Some [(2, 2), (2, 3)] \<and>
   map_option exclusive
     (exec [Acq 1, Acq 2, Rel 1 (Some 2), Acq 2] (sample_system [Some 2, Some 3])) = Some True"
proof -
  let ?s = "sample_system [Some 2, Some 3]"
  let ?acts = "[Acq 1, Acq 2, Rel 1 (Some 2), Acq 2]"
  have start: "exclusive ?s"
    by (simp add: exclusive_def sample_system_def sample_defs)
  have disc: "disciplined ?acts ?s"
    by (simp add: step_def Acquire_def Acquire_received_def isConnectionExpired_def
        select_recv_timer_def Release_entry time_Now_def chan_defs sample_system_def
        sample_defs)
  obtain s' where run: "exec ?acts ?s = Some s'" and hs: "held s' = [(2, 2), (2, 3)]"
    by (simp add: step_def Acquire_def Acquire_received_def isConnectionExpired_def
        select_recv_timer_def Release_entry time_Now_def chan_defs sample_system_def
        sample_defs)
  from disciplined_callers_exclusive [OF start disc run] start disc run hs
  show ?thesis by simp
qed

text \<open>
  Without that discipline the property fails. Caller 1 releases entry 7, which it never
  acquired, twice; the store has room for both. The next two \<^verbatim>\<open>Acquire\<close> calls hand
  entry 7 to caller 1 and to caller 2.
\<close>

theorem double_release_double_handout:
  "exclusive (sample_system []) \<and>
   map_option held
     (exec [Rel 1 (Some 7), Rel 1 (Some 7), Acq 1, Acq 2] (sample_system [])) =
     Some [(2, 7), (1, 7)] \<and>
   map_option exclusive
     (exec [Rel 1 (Some 7), Rel 1 (Some 7), Acq 1, Acq 2] (sample_system [])) = Some False"
  by (simp add: exclusive_def step_def Acquire_def Acquire_received_def
      isConnectionExpired_def select_recv_timer_def Release_entry time_Now_def chan_defs
      sample_system_def sample_defs)

section \<open>The maintenance tick\<close>

subsection \<open>Eviction\<close>

text \<open>
  The channel that \<^verbatim>\<open>CloseExpiredConnections\<close> makes for the survivors is unbuffered
  and nothing receives from it, so no send to it completes. Whenever the function
  returns, \<^verbatim>\<open>p.conns\<close> is that channel: empty, with capacity 0.
\<close>

lemma CloseExpired_loop_returns:
  "ch_buf (conns p) = idle \<Longrightarrow> ch_cap nc = 0 \<Longrightarrow>
   CloseExpired_loop t nc p w = Returns u (p', w') \<Longrightarrow> conns p' = nc"
proof (induction idle arbitrary: p w)
  case Nil
  obtain r w0 where sel: "select_recv_timer (conns p) t w = (r, w0)"
    by (cases "select_recv_timer (conns p) t w")
  show ?case
  proof (cases r)
    case (SelReceived conn c')
    with sel select_received [of "conns p" t w conn c' w0] Nil.prems(1) show ?thesis by simp
  next
    case SelClosed
    with sel Nil.prems(3) show ?thesis
      by (subst (asm) CloseExpired_loop.simps) simp
  next
    case SelTimer
    with sel Nil.prems(3) show ?thesis
      by (subst (asm) CloseExpired_loop.simps) auto
  qed
next
  case (Cons x idle)
  obtain r w0 where sel: "select_recv_timer (conns p) t w = (r, w0)"
    by (cases "select_recv_timer (conns p) t w")
  show ?case
  proof (cases r)
    case (SelReceived conn c')
    with sel select_received [of "conns p" t w conn c' w0] Cons.prems(1)
    have conn: "conn = x" and rest: "ch_buf c' = idle" by simp_all
    let ?p = "p\<lparr>conns := c'\<rparr>"
    have buf: "ch_buf (conns ?p) = idle" using rest by simp
    show ?thesis
    proof (cases x)
      case None
      with sel SelReceived conn Cons.prems(3) show ?thesis
        by (subst (asm) CloseExpired_loop.simps) simp
    next
      case (Some a)
      show ?thesis
      proof (cases "HeartBeat (heap w0 a) + TimeOut (heap w0 a) < clock w0 (reads w0)")
        case True
        with sel SelReceived conn Some Cons.prems(3)
        have "CloseExpired_loop t nc ?p
                (DB_Close (DB (heap w0 a)) (w0\<lparr>reads := Suc (reads w0)\<rparr>))
              = Returns u (p', w')"
          by (subst (asm) CloseExpired_loop.simps) (simp add: time_Now_def)
        with Cons.IH [OF buf Cons.prems(2)] show ?thesis by blast
      next
        case False
        from Cons.prems(2)
        have "chan_send nc (Some a) = SendBlocks \<or> chan_send nc (Some a) = SendPanics"
          by (simp add: chan_send_def)
        with False sel SelReceived conn Some Cons.prems(3) show ?thesis
          by (subst (asm) CloseExpired_loop.simps) (auto simp: time_Now_def)
      qed
    qed
  next
    case SelClosed
    with sel Cons.prems(3) show ?thesis
      by (subst (asm) CloseExpired_loop.simps) simp
  next
    case SelTimer
    with sel Cons.prems(3) show ?thesis
      by (subst (asm) CloseExpired_loop.simps) auto
  qed
qed

lemma CloseExpiredConnections_returns:
  "CloseExpiredConnections p w = Returns u (p', w') \<Longrightarrow> conns p' = make_chan_unbuffered"
  unfolding CloseExpiredConnections_def
  by (rule CloseExpired_loop_returns [where idle = "ch_buf (conns p)"])
     (simp_all add: make_chan_unbuffered_def)

text \<open>
  C1. Specified: the store keeps the capacity \<open>maxSize\<close> for its whole life. Here the
  store has capacity 3 and holds the expired entries 0 and 1. The eviction closes both
  and returns with a store of capacity 0.
\<close>

theorem eviction_replaces_store:
  "ch_cap (conns (sample_pool [Some 0, Some 1])) = 3 \<and>
   maxConnections (sample_pool [Some 0, Some 1]) = 3 \<and>
   CloseExpiredConnections (sample_pool [Some 0, Some 1]) sample_world =
     Returns ()
       ((sample_pool [])\<lparr>conns := \<lparr>ch_cap = 0, ch_buf = [], ch_closed = False\<rparr>\<rparr>,
        sample_world\<lparr>closed_log := [0, 1], reads := 2\<rparr>)"
  by (simp add: CloseExpiredConnections_def CloseExpired_loop.simps select_recv_timer_def
      time_Now_def DB_Close_def chan_defs sample_defs)

text \<open>
  C4. Specified: the eviction closes and removes every expired idle entry and
  keeps every other idle entry in the store. Here the store holds entry 2, which is not
  expired, and then entry 0, which is. The eviction takes entry 2 out of the store and
  blocks on sending it to the unbuffered channel: it does not return, entry 2 is in no
  store, and entry 0 is never looked at or closed.
\<close>

theorem eviction_blocks_on_live_entry:
  "CloseExpiredConnections (sample_pool [Some 2, Some 0]) sample_world =
     Blocks (sample_pool [Some 0], sample_world\<lparr>reads := 1\<rparr>)"
  by (simp add: CloseExpiredConnections_def CloseExpired_loop.simps select_recv_timer_def
      time_Now_def chan_defs sample_defs)

subsection \<open>Refill\<close>

text \<open>
  The loop of \<^verbatim>\<open>MaintainMinConnections\<close> is right where every send finds room: on
  an open store with a factory and \<open>minConnections\<close> within the capacity, it calls the
  factory once for each missing entry, skips the failed calls, appends what the others
  created, and returns.
\<close>

lemma Maintain_loop_fills:
  assumes "OpenConnection p = Some f"
    and "\<not> ch_closed (conns p)"
    and "minConnections p \<le> int (ch_cap (conns p))"
    and "int (length (ch_buf (conns p))) \<le> i"
    and "n = nat (minConnections p - i)"
  shows "Maintain_loop i p w =
     (case factory_calls f n w of
        (cs, w') \<Rightarrow> Returns () (p\<lparr>conns := (conns p)\<lparr>ch_buf := ch_buf (conns p) @ cs\<rparr>\<rparr>, w'))"
  using assms
proof (induction n arbitrary: i p w)
  case 0
  then show ?case
    by (subst Maintain_loop.simps) simp
next
  case (Suc n)
  from Suc.prems(5) have lt: "i < minConnections p" and n: "n = nat (minConnections p - (i + 1))"
    by linarith+
  obtain r w1 where fw: "f w = (r, w1)" by (cases "f w")
  show ?case
  proof (cases r)
    case (Inl e)
    from Suc.IH [OF Suc.prems(1-3) _ n, of w1] Suc.prems(4)
    have "Maintain_loop (i + 1) p w1 =
       (case factory_calls f n w1 of
          (cs, w') \<Rightarrow> Returns () (p\<lparr>conns := (conns p)\<lparr>ch_buf := ch_buf (conns p) @ cs\<rparr>\<rparr>, w'))"
      by simp
    with lt fw Inl Suc.prems(1) show ?thesis
      by (subst Maintain_loop.simps) simp
  next
    case (Inr conn)
    let ?c = "(conns p)\<lparr>ch_buf := ch_buf (conns p) @ [conn]\<rparr>"
    let ?p = "p\<lparr>conns := ?c\<rparr>"
    from lt Suc.prems(2-4) have sent: "chan_send (conns p) conn = Sent ?c"
      by (simp add: chan_send_def)
    have "Maintain_loop (i + 1) ?p w1 =
       (case factory_calls f n w1 of
          (cs, w') \<Rightarrow> Returns () (?p\<lparr>conns := (conns ?p)\<lparr>ch_buf := ch_buf (conns ?p) @ cs\<rparr>\<rparr>, w'))"
      using Suc.prems(1-4) n by (intro Suc.IH) simp_all
    with lt fw Inr sent Suc.prems(1) show ?thesis
      by (subst Maintain_loop.simps) (simp split: prod.splits)
  qed
qed

lemma MaintainMinConnections_fills:
  assumes "OpenConnection p = Some f"
    and "\<not> ch_closed (conns p)"
    and "minConnections p \<le> int (ch_cap (conns p))"
  shows "MaintainMinConnections p w =
     (case factory_calls f (nat (minConnections p - int (length (ch_buf (conns p))))) w of
        (cs, w') \<Rightarrow> Returns () (p\<lparr>conns := (conns p)\<lparr>ch_buf := ch_buf (conns p) @ cs\<rparr>\<rparr>, w'))"
  unfolding MaintainMinConnections_def
  by (rule Maintain_loop_fills [OF assms]) simp_all

text \<open>
  C5. Specified: after one tick the idle count is at least the smaller of \<open>minSize\<close> and
  the initial idle count plus the number of successful factory calls. Here
  \<open>minConnections\<close> is 2, \<open>maxConnections\<close> is 3, the store holds the expired entries 0
  and 1, and the factory always succeeds. Within the tick the refill runs on the
  unbuffered channel that the eviction has just installed: the eviction closes both
  entries, the first factory call creates entry 12, and its send blocks. The tick does
  not end and the store holds nothing.
\<close>

theorem tick_refill_blocks:
  "minConnections (sample_pool [Some 0, Some 1]) = 2 \<and>
   Cleaner (sample_pool [Some 0, Some 1]) sample_world =
     Blocks
       ((sample_pool [])\<lparr>conns := \<lparr>ch_cap = 0, ch_buf = [], ch_closed = False\<rparr>\<rparr>,
        sample_world\<lparr>closed_log := [0, 1], reads := 3,
          heap := (heap sample_world)(12 := \<lparr>DB = 12, HeartBeat = 150, TimeOut = 3000\<rparr>)\<rparr>)"
  by (simp add: Cleaner_def MaintainMinConnections_def Maintain_loop.simps
      CloseExpiredConnections_def CloseExpired_loop.simps select_recv_timer_def time_Now_def
      DB_Close_def sample_factory_def chan_defs sample_defs)

section \<open>Close\<close>

text \<open>
  The \<^verbatim>\<open>range\<close> loop: when it ends the channel is closed and drained; it leaves the
  ticker and the \<^verbatim>\<open>once\<close> alone; over non-nil entries it closes each handle once, in
  order; on an open channel it never ends.
\<close>

lemma Close_range_returns:
  "Close_range p w = Returns u (p', w') \<Longrightarrow> chan_recv (conns p') = ClosedEmpty"
proof (induction p w rule: Close_range.induct)
  case (1 p w)
  from "1.prems" show ?case
    apply (subst (asm) Close_range.simps)
    apply (auto split: recv_result.splits option.splits dest: "1.IH")
    done
qed

lemma Close_range_keeps:
  "Close_range p w = Returns u (p', w') \<Longrightarrow>
   cleanupTicker p' = cleanupTicker p \<and> once_done w' = once_done w"
proof (induction p w rule: Close_range.induct)
  case (1 p w)
  from "1.prems" show ?case
    apply (subst (asm) Close_range.simps)
    apply (auto simp: DB_Close_def split: recv_result.splits option.splits dest!: "1.IH")
    done
qed

lemma Close_range_drains:
  "ch_buf (conns p) = map Some as \<Longrightarrow>
   Close_range p w =
     (if ch_closed (conns p)
      then Returns () (p\<lparr>conns := (conns p)\<lparr>ch_buf := []\<rparr>\<rparr>,
                       w\<lparr>closed_log := closed_log w @ map (\<lambda>a. DB (heap w a)) as\<rparr>)
      else Blocks (p\<lparr>conns := (conns p)\<lparr>ch_buf := []\<rparr>\<rparr>,
                   w\<lparr>closed_log := closed_log w @ map (\<lambda>a. DB (heap w a)) as\<rparr>))"
proof (induction as arbitrary: p w)
  case Nil
  then show ?case
    by (subst Close_range.simps) (simp add: chan_recv_def)
next
  case (Cons a as)
  have "ch_buf (conns (p\<lparr>conns := (conns p)\<lparr>ch_buf := map Some as\<rparr>\<rparr>)) = map Some as"
    by simp
  from Cons.IH [OF this, of "DB_Close (DB (heap w a)) w"] Cons.prems show ?case
    by (subst Close_range.simps) (simp add: chan_recv_def DB_Close_def)
qed

lemma Close_range_open_never_returns:
  "\<not> ch_closed (conns p) \<Longrightarrow> Close_range p w \<noteq> Returns u st"
proof (induction p w rule: Close_range.induct)
  case (1 p w)
  show ?case
    apply (subst Close_range.simps)
    using 1
    apply (auto simp: chan_recv_def split: recv_result.splits option.splits list.splits if_splits)
    done
qed

text \<open>
  \<^verbatim>\<open>dbpool\<close>'s \<^verbatim>\<open>Close\<close>, called again on the pool it has closed, returns at once
  and closes nothing.
\<close>

lemma Close_idempotent:
  assumes "Close p w = Returns u (p', w')"
  shows "Close p' w' = Returns () (p', w')"
proof -
  from assms obtain t where t: "cleanupTicker p = Some t"
    by (auto simp: Close_def split: option.splits)
  let ?p1 = "p\<lparr>cleanupTicker := Some (t\<lparr>running := False\<rparr>)\<rparr>"
  from assms t obtain q v where run: "Close_range q v = Returns u (p', w')"
    and q: "cleanupTicker q = Some (t\<lparr>running := False\<rparr>)" and v: "once_done v"
    by (auto simp: Close_def Let_def split: option.splits if_splits)
  from Close_range_keeps [OF run] q v
  have tick: "cleanupTicker p' = Some (t\<lparr>running := False\<rparr>)" and once: "once_done w'"
    by simp_all
  have same: "p'\<lparr>cleanupTicker := Some (t\<lparr>running := False\<rparr>)\<rparr> = p'"
    using tick by (cases p') simp
  have "Close p' w' = Close_range (p'\<lparr>cleanupTicker := Some (t\<lparr>running := False\<rparr>)\<rparr>) w'"
    using tick once by (simp add: Close_def)
  also have "\<dots> = Close_range p' w'"
    by (simp only: same)
  also from Close_range_returns [OF run] have "\<dots> = Returns () (p', w')"
    by (subst Close_range.simps) simp
  finally show ?thesis .
qed

text \<open>\<^verbatim>\<open>redispool\<close>'s \<^verbatim>\<open>Close\<close>, called again, always panics.\<close>

lemma Redis_Close_again:
  assumes "Redis_Close p w = Returns u (p', w')"
  shows "Redis_Close p' w' = Panics CloseOfClosedChannel (p', w')"
proof -
  from assms have "chan_recv (conns p') = ClosedEmpty"
    by (auto simp: Redis_Close_def split: option.splits dest: Close_range_returns)
  then have "ch_closed (conns p')"
    by (auto simp: chan_recv_def split: list.splits if_splits)
  then show ?thesis
    by (simp add: Redis_Close_def chan_close_def)
qed

text \<open>
  C6. Specified: a second \<^verbatim>\<open>Close\<close> on the same pool does not panic.
  \<^verbatim>\<open>redispool\<close>'s \<^verbatim>\<open>Close\<close> has no guard: the first call closes the channel and
  the handle of the idle entry 2, the second call closes the closed channel, which
  panics.
\<close>

theorem Redis_Close_twice_panics:
  "Redis_Close (sample_pool [Some 2]) sample_world =
     Returns ()
       ((sample_pool [])\<lparr>conns := \<lparr>ch_cap = 3, ch_buf = [], ch_closed = True\<rparr>\<rparr>,
        sample_world\<lparr>closed_log := [2]\<rparr>) \<and>
   Redis_Close
       ((sample_pool [])\<lparr>conns := \<lparr>ch_cap = 3, ch_buf = [], ch_closed = True\<rparr>\<rparr>)
       (sample_world\<lparr>closed_log := [2]\<rparr>) =
     Panics CloseOfClosedChannel
       ((sample_pool [])\<lparr>conns := \<lparr>ch_cap = 3, ch_buf = [], ch_closed = True\<rparr>\<rparr>,
        sample_world\<lparr>closed_log := [2]\<rparr>)"
  by (simp add: Redis_Close_def Close_range.simps DB_Close_def chan_defs sample_defs)

text \<open>
  After a \<^verbatim>\<open>Close\<close> that returned, \<^verbatim>\<open>Acquire\<close> panics whenever its \<^verbatim>\<open>select\<close> takes
  the receive, as it does when the timer is not ready.
\<close>

lemma Close_then_Acquire:
  assumes "Close p w = Returns u (p', w')"
    and "\<not> (waitTimeout p' \<le> int (fst (races w' 0)) \<and> snd (races w' 0))"
  shows "Acquire p' w' =
           Panics NilDereference (p', w'\<lparr>races := (\<lambda>k. races w' (Suc k))\<rparr>)"
proof -
  from assms(1) have "chan_recv (conns p') = ClosedEmpty"
    by (auto simp: Close_def Let_def split: option.splits if_splits dest: Close_range_returns)
  from select_takes_closed [OF this assms(2)] show ?thesis
    by (simp add: Acquire_def Acquire_received_def isConnectionExpired_def)
qed

text \<open>
  C7. Specified: \<^verbatim>\<open>Acquire\<close> on a closed pool returns an error. Here
  \<^verbatim>\<open>Close\<close> returns, and \<^verbatim>\<open>Acquire\<close> on the pool it leaves receives nil from the
  closed channel and panics on dereferencing it.
\<close>

theorem Acquire_after_Close_panics:
  "Close (sample_pool [Some 2]) sample_world =
     Returns ()
       ((sample_pool [])\<lparr>conns := \<lparr>ch_cap = 3, ch_buf = [], ch_closed = True\<rparr>,
                          cleanupTicker := Some \<lparr>running = False\<rparr>\<rparr>,
        sample_world\<lparr>once_done := True, closed_log := [2]\<rparr>) \<and>
   Acquire
       ((sample_pool [])\<lparr>conns := \<lparr>ch_cap = 3, ch_buf = [], ch_closed = True\<rparr>,
                          cleanupTicker := Some \<lparr>running = False\<rparr>\<rparr>)
       (sample_world\<lparr>once_done := True, closed_log := [2]\<rparr>) =
     Panics NilDereference
       ((sample_pool [])\<lparr>conns := \<lparr>ch_cap = 3, ch_buf = [], ch_closed = True\<rparr>,
                          cleanupTicker := Some \<lparr>running = False\<rparr>\<rparr>,
        sample_world\<lparr>once_done := True, closed_log := [2]\<rparr>)"
  by (simp add: Close_def Close_range.simps Acquire_def Acquire_received_def
      isConnectionExpired_def select_recv_timer_def DB_Close_def chan_defs sample_defs)

text \<open>
  Once the package's \<^verbatim>\<open>once\<close> has fired, \<^verbatim>\<open>Close\<close> on a pool whose channel is open
  does not return.
\<close>

lemma Close_after_once:
  "once_done w \<Longrightarrow> \<not> ch_closed (conns p) \<Longrightarrow> Close p w \<noteq> Returns u st"
  by (auto simp: Close_def Let_def Close_range_open_never_returns split: option.splits)

text \<open>
  C9. Specified: closing pool A does not change what \<^verbatim>\<open>Close\<close> does on another
  pool B. Here A holds entry 2 and B holds entry 3. \<^verbatim>\<open>Close\<close> on A fires the
  package's \<^verbatim>\<open>once\<close>. \<^verbatim>\<open>Close\<close> on B then skips \<^verbatim>\<open>close(p.conns)\<close>: it closes the
  handle of entry 3, but B's channel stays open and the call blocks in the
  \<^verbatim>\<open>range\<close> loop. Had A not been closed, the same call on B would close B's channel
  and return.
\<close>

theorem Close_second_pool_blocks:
  "Close (sample_pool [Some 2]) sample_world =
     Returns ()
       ((sample_pool [])\<lparr>conns := \<lparr>ch_cap = 3, ch_buf = [], ch_closed = True\<rparr>,
                          cleanupTicker := Some \<lparr>running = False\<rparr>\<rparr>,
        sample_world\<lparr>once_done := True, closed_log := [2]\<rparr>) \<and>
   Close (sample_pool [Some 3]) (sample_world\<lparr>once_done := True, closed_log := [2]\<rparr>) =
     Blocks
       ((sample_pool [])\<lparr>conns := \<lparr>ch_cap = 3, ch_buf = [], ch_closed = False\<rparr>,
                          cleanupTicker := Some \<lparr>running = False\<rparr>\<rparr>,
        sample_world\<lparr>once_done := True, closed_log := [2, 3]\<rparr>) \<and>
   Close (sample_pool [Some 3]) sample_world =
     Returns ()
       ((sample_pool [])\<lparr>conns := \<lparr>ch_cap = 3, ch_buf = [], ch_closed = True\<rparr>,
                          cleanupTicker := Some \<lparr>running = False\<rparr>\<rparr>,
        sample_world\<lparr>once_done := True, closed_log := [3]\<rparr>)"
  by (simp add: Close_def Close_range.simps DB_Close_def chan_defs sample_defs)

end
